theory Spec2Isabelle
  imports Main
begin

section \<open>The TCP socket handle table and its four operations (socket_impl.c)\<close>

text \<open>
  The model follows the POSIX branch of \<^verbatim>\<open>socket_impl.c\<close> (the \<^verbatim>\<open>#else\<close> parts of
  every \<^verbatim>\<open>#ifdef _WIN32\<close>). C \<^verbatim>\<open>int\<close> values are HOL integers; the two places where
  the C arithmetic is not the mathematical one are written out: the remainder
  \<^verbatim>\<open>%\<close> truncates towards zero, and incrementing \<^verbatim>\<open>INT_MAX\<close> or decrementing
  \<^verbatim>\<open>INT_MIN\<close> is undefined. An array access outside \<^verbatim>\<open>sockets[0..255]\<close> is undefined
  as well. Undefined behaviour is a value of type \<open>fault\<close>, so that every function
  either returns what the C function returns or reports where the C function has no
  defined result.
\<close>

datatype fault = OutOfBounds | SignedOverflow

subsection \<open>Constants of the source\<close>

definition INVALID_SOCKET :: int where "INVALID_SOCKET = -1"
definition SOCKET_ERROR :: int where "SOCKET_ERROR = -1"

definition ERROR_NONE :: int where "ERROR_NONE = 0"
definition ERROR_CONNECTION_REFUSED :: int where "ERROR_CONNECTION_REFUSED = 1"
definition ERROR_TIMEOUT :: int where "ERROR_TIMEOUT = 2"
definition ERROR_CLOSED :: int where "ERROR_CLOSED = 3"
definition ERROR_INVALID_SOCKET :: int where "ERROR_INVALID_SOCKET = 4"
definition ERROR_UNKNOWN :: int where "ERROR_UNKNOWN = 5"

definition MAX_SOCKETS :: int where "MAX_SOCKETS = 256"

definition INT_MAX :: int where "INT_MAX = 2147483647"
definition INT_MIN :: int where "INT_MIN = - 2147483648"

lemmas c_consts =
  INVALID_SOCKET_def SOCKET_ERROR_def ERROR_NONE_def ERROR_CONNECTION_REFUSED_def
  ERROR_TIMEOUT_def ERROR_CLOSED_def ERROR_INVALID_SOCKET_def ERROR_UNKNOWN_def
  MAX_SOCKETS_def INT_MAX_def INT_MIN_def

text \<open>
  The values of \<^verbatim>\<open>errno\<close> that the source distinguishes come from the system headers;
  only their being different from each other matters, so they are constructors, and
  every other value of \<^verbatim>\<open>errno\<close> is \<open>Other_errno n\<close>.
\<close>

datatype errno =
  ECONNREFUSED | ETIMEDOUT | ECONNRESET | EPIPE | EINPROGRESS | Other_errno int

text \<open>The C remainder \<^verbatim>\<open>a % b\<close>: the sign of the result is the sign of \<open>a\<close>.\<close>

definition c_mod :: "int \<Rightarrow> int \<Rightarrow> int" where
  "c_mod a b = sgn a * (\<bar>a\<bar> mod \<bar>b\<bar>)"

subsection \<open>State: the three static variables and the operating system\<close>

text \<open>
  What the operating system is asked to do is recorded in call order; the model
  abstracts the two \<^verbatim>\<open>fcntl\<close> calls that read and write the file status flags into
  one event carrying the new value of \<^verbatim>\<open>O_NONBLOCK\<close>.
\<close>

datatype os_call =
  Sys_socket int
| Sys_set_nonblock int bool
| Sys_inet_pton string
| Sys_connect int int
| Sys_select int int
| Sys_getsockopt_so_error int
| Sys_setsockopt_rcvtimeo int int
| Sys_send int int
| Sys_recv int int
| Sys_close int

text \<open>
  \<open>sockets\<close>, \<open>socket_count\<close> and \<open>next_socket_id\<close> are the static variables of the
  source. \<open>open_fds\<close> is the set of descriptors that \<^verbatim>\<open>socket()\<close> has returned to this
  module and that no \<^verbatim>\<open>close()\<close> has released since; \<open>os_calls\<close> is the history of
  system calls, oldest first.
\<close>

record state =
  sockets :: "int list"
  socket_count :: int
  next_socket_id :: int
  open_fds :: "int set"
  os_calls :: "os_call list"

text \<open>
  C initialises an object of static storage duration without an initialiser to zero:
  \<^verbatim>\<open>static SOCKET sockets[MAX_SOCKETS];\<close> starts as 256 zeros. The source has no
  other initialisation of the array.
\<close>

definition initial_state :: state where
  "initial_state =
     \<lparr>sockets = replicate (nat MAX_SOCKETS) 0, socket_count = 0, next_socket_id = 1,
      open_fds = {}, os_calls = []\<rparr>"

text \<open>The triple written through \<^verbatim>\<open>out_success\<close>, \<^verbatim>\<open>out_value\<close> and \<^verbatim>\<open>out_error\<close>.\<close>

record result =
  out_success :: int
  out_value :: int
  out_error :: int

subsection \<open>System calls\<close>

definition os_log :: "os_call \<Rightarrow> state \<Rightarrow> state" where
  "os_log c s = s\<lparr>os_calls := os_calls s @ [c]\<rparr>"

text \<open>\<^verbatim>\<open>socket()\<close> answers \<open>fd\<close>: a new descriptor, or \<open>INVALID_SOCKET\<close>.\<close>

definition os_socket :: "int \<Rightarrow> state \<Rightarrow> state" where
  "os_socket fd s =
     (let s1 = os_log (Sys_socket fd) s in
      if fd = INVALID_SOCKET then s1 else s1\<lparr>open_fds := insert fd (open_fds s1)\<rparr>)"

definition os_close :: "int \<Rightarrow> state \<Rightarrow> state" where
  "os_close fd s = (os_log (Sys_close fd) s)\<lparr>open_fds := open_fds s - {fd}\<rparr>"

text \<open>
  The answers of the operating system to one call of \<^verbatim>\<open>ibmoon_socket_connect\<close>: the
  results of \<^verbatim>\<open>socket\<close>, \<^verbatim>\<open>inet_pton\<close>, \<^verbatim>\<open>connect\<close> (with the \<^verbatim>\<open>errno\<close> it leaves),
  \<^verbatim>\<open>select\<close>, and the value \<^verbatim>\<open>getsockopt(SO_ERROR)\<close> stores in \<^verbatim>\<open>error\<close>. A field is
  read only where the source makes the call.
\<close>

record connect_os =
  socket_ret :: int
  inet_pton_ret :: int
  connect_ret :: int
  connect_errno :: errno
  select_ret :: int
  so_error :: int

text \<open>The answer to \<^verbatim>\<open>send\<close> or \<^verbatim>\<open>recv\<close>: the return value and the \<^verbatim>\<open>errno\<close> left.\<close>

record io_os =
  io_ret :: int
  io_errno :: errno

subsection \<open>The handle table\<close>

definition array_read :: "int list \<Rightarrow> int \<Rightarrow> fault + int" where
  "array_read a idx =
     (if 0 \<le> idx \<and> idx < int (length a) then Inr (a ! nat idx) else Inl OutOfBounds)"

text \<open>\<^verbatim>\<open>store_socket\<close>, lines 60 to 75. The result \<open>-1\<close> is the full table.\<close>

definition store_socket :: "int \<Rightarrow> state \<Rightarrow> fault + (int \<times> state)" where
  "store_socket sock s =
     (if socket_count s \<ge> MAX_SOCKETS then Inr (-1, s)
      else if next_socket_id s = INT_MAX then Inl SignedOverflow
      else
        (let socket_id = next_socket_id s;
             s1 = s\<lparr>next_socket_id := socket_id + 1\<rparr>;
             idx = c_mod socket_id MAX_SOCKETS
         in if 0 \<le> idx \<and> idx < int (length (sockets s1))
            then Inr (socket_id,
                      s1\<lparr>sockets := (sockets s1)[nat idx := sock],
                         socket_count := socket_count s1 + 1\<rparr>)
            else Inl OutOfBounds))"

text \<open>\<^verbatim>\<open>find_socket\<close>, lines 78 to 81.\<close>

definition find_socket :: "int \<Rightarrow> state \<Rightarrow> fault + int" where
  "find_socket socket_id s =
     (let idx = c_mod socket_id MAX_SOCKETS in array_read (sockets s) idx)"

text \<open>\<^verbatim>\<open>remove_socket\<close>, lines 84 to 95.\<close>

definition remove_socket :: "int \<Rightarrow> state \<Rightarrow> fault + state" where
  "remove_socket socket_id s =
     (let idx = c_mod socket_id MAX_SOCKETS in
      case array_read (sockets s) idx of
        Inl f \<Rightarrow> Inl f
      | Inr cur \<Rightarrow>
          if cur \<noteq> INVALID_SOCKET then
            (let s1 = os_close cur s;
                 s2 = s1\<lparr>sockets := (sockets s1)[nat idx := INVALID_SOCKET]\<rparr>
             in if socket_count s2 = INT_MIN then Inl SignedOverflow
                else Inr (s2\<lparr>socket_count := socket_count s2 - 1\<rparr>))
          else Inr s)"

text \<open>\<^verbatim>\<open>get_socket_error\<close>, lines 113 to 123, as a function of \<^verbatim>\<open>errno\<close>.\<close>

fun get_socket_error :: "errno \<Rightarrow> int" where
  "get_socket_error ECONNREFUSED = ERROR_CONNECTION_REFUSED"
| "get_socket_error ETIMEDOUT = ERROR_TIMEOUT"
| "get_socket_error ECONNRESET = ERROR_CLOSED"
| "get_socket_error EPIPE = ERROR_CLOSED"
| "get_socket_error _ = ERROR_UNKNOWN"

subsection \<open>Connect\<close>

text \<open>
  Lines 177 to 239: the block entered when \<^verbatim>\<open>connect\<close> returned \<open>SOCKET_ERROR\<close>.
  \<open>Inl\<close> is one of its early returns, \<open>Inr\<close> falls through to line 241. \<^verbatim>\<open>close\<close> of
  the descriptor just created is taken to succeed, so that \<^verbatim>\<open>get_socket_error\<close> still
  reads the \<^verbatim>\<open>errno\<close> of \<^verbatim>\<open>connect\<close>. The descriptor set and the \<^verbatim>\<open>timeval\<close> handed
  to \<^verbatim>\<open>select\<close> are local to the call; the event records the descriptor and
  \<open>timeout_ms\<close>.
\<close>

definition connect_pending ::
  "int \<Rightarrow> int \<Rightarrow> connect_os \<Rightarrow> state \<Rightarrow> (result \<times> state) + state" where
  "connect_pending sock timeout_ms os s =
     (if connect_errno os \<noteq> EINPROGRESS then
        Inl (\<lparr>out_success = 0, out_value = 0,
              out_error = get_socket_error (connect_errno os)\<rparr>, os_close sock s)
      else if timeout_ms > 0 then
        (let s1 = os_log (Sys_select sock timeout_ms) s;
             result = select_ret os
         in if result \<le> 0 then
              Inl (\<lparr>out_success = 0, out_value = 0,
                    out_error = (if result = 0 then ERROR_TIMEOUT else ERROR_UNKNOWN)\<rparr>,
                   os_close sock s1)
            else
              (let s2 = os_log (Sys_getsockopt_so_error sock) s1;
                   error = so_error os
               in if error \<noteq> 0 then
                    Inl (\<lparr>out_success = 0, out_value = 0,
                          out_error = ERROR_CONNECTION_REFUSED\<rparr>, os_close sock s2)
                  else Inr s2))
      else Inr s)"

text \<open>Lines 241 to 267: back to blocking mode, then registration.\<close>

definition connect_register :: "int \<Rightarrow> state \<Rightarrow> fault + (result \<times> state)" where
  "connect_register sock s =
     (let s1 = os_log (Sys_set_nonblock sock False) s in
      case store_socket sock s1 of
        Inl f \<Rightarrow> Inl f
      | Inr (socket_id, s2) \<Rightarrow>
          if socket_id < 0 then
            Inr (\<lparr>out_success = 0, out_value = 0, out_error = ERROR_UNKNOWN\<rparr>,
                 os_close sock s2)
          else
            Inr (\<lparr>out_success = 1, out_value = socket_id, out_error = ERROR_NONE\<rparr>, s2))"

text \<open>\<^verbatim>\<open>ibmoon_socket_connect\<close>, lines 129 to 267.\<close>

definition ibmoon_socket_connect ::
  "string \<Rightarrow> int \<Rightarrow> int \<Rightarrow> connect_os \<Rightarrow> state \<Rightarrow> fault + (result \<times> state)" where
  "ibmoon_socket_connect host port timeout_ms os s =
     (let sock = socket_ret os;
          s1 = os_socket sock s
      in if sock = INVALID_SOCKET then
           Inr (\<lparr>out_success = 0, out_value = 0, out_error = ERROR_UNKNOWN\<rparr>, s1)
         else
           (let s2 = os_log (Sys_set_nonblock sock True) s1;
                s3 = os_log (Sys_inet_pton host) s2
            in if inet_pton_ret os \<le> 0 then
                 Inr (\<lparr>out_success = 0, out_value = 0, out_error = ERROR_UNKNOWN\<rparr>,
                      os_close sock s3)
               else
                 (let s4 = os_log (Sys_connect sock port) s3;
                      result = connect_ret os
                  in if result = SOCKET_ERROR then
                       (case connect_pending sock timeout_ms os s4 of
                          Inl early \<Rightarrow> Inr early
                        | Inr s5 \<Rightarrow> connect_register sock s5)
                     else connect_register sock s4)))"

subsection \<open>Send, receive, close\<close>

text \<open>
  The bytes themselves are not modelled: \<open>length'\<close> and \<open>buffer_len\<close> are the sizes
  handed to the operating system, whose answer is \<open>os\<close>.
\<close>

text \<open>\<^verbatim>\<open>ibmoon_socket_send\<close>, lines 271 to 294.\<close>

definition ibmoon_socket_send ::
  "int \<Rightarrow> int \<Rightarrow> io_os \<Rightarrow> state \<Rightarrow> fault + (result \<times> state)" where
  "ibmoon_socket_send socket_id length' os s =
     (case find_socket socket_id s of
        Inl f \<Rightarrow> Inl f
      | Inr sock \<Rightarrow>
          if sock = INVALID_SOCKET then
            Inr (\<lparr>out_success = 0, out_value = 0, out_error = ERROR_INVALID_SOCKET\<rparr>, s)
          else
            (let s1 = os_log (Sys_send sock length') s;
                 bytes_sent = io_ret os
             in if bytes_sent = SOCKET_ERROR then
                  Inr (\<lparr>out_success = 0, out_value = 0,
                        out_error = get_socket_error (io_errno os)\<rparr>, s1)
                else
                  Inr (\<lparr>out_success = 1, out_value = bytes_sent, out_error = ERROR_NONE\<rparr>,
                       s1)))"

text \<open>\<^verbatim>\<open>ibmoon_socket_receive\<close>, lines 298 to 342.\<close>

definition ibmoon_socket_receive ::
  "int \<Rightarrow> int \<Rightarrow> int \<Rightarrow> io_os \<Rightarrow> state \<Rightarrow> fault + (result \<times> state)" where
  "ibmoon_socket_receive socket_id buffer_len timeout_ms os s =
     (case find_socket socket_id s of
        Inl f \<Rightarrow> Inl f
      | Inr sock \<Rightarrow>
          if sock = INVALID_SOCKET then
            Inr (\<lparr>out_success = 0, out_value = 0, out_error = ERROR_INVALID_SOCKET\<rparr>, s)
          else
            (let s1 = (if timeout_ms > 0
                       then os_log (Sys_setsockopt_rcvtimeo sock timeout_ms) s else s);
                 s2 = os_log (Sys_recv sock buffer_len) s1;
                 bytes_received = io_ret os
             in if bytes_received = SOCKET_ERROR then
                  Inr (\<lparr>out_success = 0, out_value = 0,
                        out_error = get_socket_error (io_errno os)\<rparr>, s2)
                else if bytes_received = 0 then
                  Inr (\<lparr>out_success = 0, out_value = 0, out_error = ERROR_CLOSED\<rparr>, s2)
                else
                  Inr (\<lparr>out_success = 1, out_value = bytes_received,
                        out_error = ERROR_NONE\<rparr>, s2)))"

text \<open>\<^verbatim>\<open>ibmoon_socket_close\<close>, lines 346 to 362.\<close>

definition ibmoon_socket_close :: "int \<Rightarrow> state \<Rightarrow> fault + (result \<times> state)" where
  "ibmoon_socket_close socket_id s =
     (case find_socket socket_id s of
        Inl f \<Rightarrow> Inl f
      | Inr sock \<Rightarrow>
          if sock = INVALID_SOCKET then
            Inr (\<lparr>out_success = 0, out_value = 0, out_error = ERROR_INVALID_SOCKET\<rparr>, s)
          else
            (case remove_socket socket_id s of
               Inl f \<Rightarrow> Inl f
             | Inr s1 \<Rightarrow>
                 Inr (\<lparr>out_success = 1, out_value = 0, out_error = ERROR_NONE\<rparr>, s1)))"

subsection \<open>Properties of a state and of a result\<close>

text \<open>The number of slots that do not hold the sentinel.\<close>

definition occupied_slots :: "state \<Rightarrow> int" where
  "occupied_slots s = int (length (filter (\<lambda>d. d \<noteq> INVALID_SOCKET) (sockets s)))"

text \<open>
  A result triple is consistent when it is a success without error or a failure with
  one of the five error codes other than \<open>ERROR_NONE\<close>.
\<close>

definition triple_consistent :: "result \<Rightarrow> bool" where
  "triple_consistent r =
     ((out_success r = 1 \<and> out_error r = ERROR_NONE) \<or>
      (out_success r = 0 \<and>
       out_error r \<in> {ERROR_CONNECTION_REFUSED, ERROR_TIMEOUT, ERROR_CLOSED,
                       ERROR_INVALID_SOCKET, ERROR_UNKNOWN}))"

text \<open>
  The invariant of the handle table: 256 slots, and every slot holds the sentinel or
  a descriptor that is open and that no other slot holds. \<open>F\<close> is the set of open
  descriptors.
\<close>

definition slots_ok :: "int set \<Rightarrow> int list \<Rightarrow> bool" where
  "slots_ok F xs =
     list_all (\<lambda>d. d = INVALID_SOCKET \<or> (d \<in> F \<and> count_list xs d = 1)) xs"

definition handle_table_invariant :: "state \<Rightarrow> bool" where
  "handle_table_invariant s =
     (length (sockets s) = nat MAX_SOCKETS \<and> slots_ok (open_fds s) (sockets s))"

subsection \<open>Sequences of connects\<close>

text \<open>One connect for each answer of the operating system, in order.\<close>

fun connect_all ::
  "string \<Rightarrow> int \<Rightarrow> int \<Rightarrow> connect_os list \<Rightarrow> state \<Rightarrow> fault + state" where
  "connect_all host port timeout_ms [] s = Inr s"
| "connect_all host port timeout_ms (os # oss) s =
     (case ibmoon_socket_connect host port timeout_ms os s of
        Inl f \<Rightarrow> Inl f
      | Inr (r, s1) \<Rightarrow> connect_all host port timeout_ms oss s1)"

text \<open>The answers under which \<^verbatim>\<open>connect\<close> completes at once on a new socket.\<close>

definition connects_at_once :: "connect_os \<Rightarrow> bool" where
  "connects_at_once os =
     (socket_ret os \<noteq> INVALID_SOCKET \<and> 0 < inet_pton_ret os \<and>
      connect_ret os \<noteq> SOCKET_ERROR)"

subsection \<open>Concrete answers and states used in the examples\<close>

text \<open>\<^verbatim>\<open>socket\<close> answers descriptor 3 and \<^verbatim>\<open>connect\<close> completes at once.\<close>

definition accepts :: connect_os where
  "accepts = \<lparr>socket_ret = 3, inet_pton_ret = 1, connect_ret = 0,
              connect_errno = Other_errno 0, select_ret = 0, so_error = 0\<rparr>"

text \<open>
  \<^verbatim>\<open>socket\<close> answers descriptor 3, \<^verbatim>\<open>connect\<close> reports \<open>EINPROGRESS\<close>; \<open>sel\<close> is what
  \<^verbatim>\<open>select\<close> would return and \<open>err\<close> the pending error of the socket.
\<close>

definition in_progress :: "int \<Rightarrow> int \<Rightarrow> connect_os" where
  "in_progress sel err = \<lparr>socket_ret = 3, inet_pton_ret = 1, connect_ret = - 1,
                          connect_errno = EINPROGRESS, select_ret = sel, so_error = err\<rparr>"

text \<open>The state after the first connect of a process, to 127.0.0.1:9999.\<close>

definition connected_state :: state where
  "connected_state =
     \<lparr>sockets = (replicate 256 0)[1 := 3], socket_count = 1, next_socket_id = 2,
      open_fds = {3},
      os_calls = [Sys_socket 3, Sys_set_nonblock 3 True, Sys_inet_pton ''127.0.0.1'',
                  Sys_connect 3 9999, Sys_set_nonblock 3 False]\<rparr>"

text \<open>The state after closing identifier 1 in \<open>connected_state\<close>.\<close>

definition closed_state :: state where
  "closed_state =
     \<lparr>sockets = (replicate 256 0)[1 := - 1], socket_count = 0, next_socket_id = 2,
      open_fds = {},
      os_calls = [Sys_socket 3, Sys_set_nonblock 3 True, Sys_inet_pton ''127.0.0.1'',
                  Sys_connect 3 9999, Sys_set_nonblock 3 False, Sys_close 3]\<rparr>"

text \<open>
  A full table: identifiers 1 to 256 are live, identifier \<open>k\<close> on descriptor \<open>k + 2\<close>
  (the history of system calls is left out).
\<close>

definition full_state :: state where
  "full_state =
     \<lparr>sockets = 258 # [3..257], socket_count = 256, next_socket_id = 257,
      open_fds = {3..258}, os_calls = []\<rparr>"

text \<open>
  Identifiers 1 to 256 have been minted and all but identifier 1 closed again:
  identifier 1 is live on descriptor 3, and the next identifier, 257, has the slot
  of identifier 1 (the history of system calls is left out).
\<close>

definition wrapped_state :: state where
  "wrapped_state =
     \<lparr>sockets = (replicate 256 (- 1))[1 := 3], socket_count = 1, next_socket_id = 257,
      open_fds = {3}, os_calls = []\<rparr>"

lemmas model_defs =
  ibmoon_socket_connect_def connect_pending_def connect_register_def
  ibmoon_socket_send_def ibmoon_socket_receive_def ibmoon_socket_close_def
  store_socket_def find_socket_def remove_socket_def array_read_def
  os_socket_def os_close_def os_log_def c_mod_def Let_def

section \<open>Verification\<close>

subsection \<open>The slot of an identifier\<close>

text \<open>On a non-negative identifier the C remainder is the mathematical one.\<close>

lemma c_mod_nonneg: "0 \<le> a \<Longrightarrow> c_mod a MAX_SOCKETS = a mod 256"
  by (cases "a = 0") (simp_all add: c_mod_def MAX_SOCKETS_def)

lemma same_slot: "MAX_SOCKETS dvd a - b \<Longrightarrow> a mod 256 = b mod 256"
  by (simp add: MAX_SOCKETS_def mod_eq_dvd_iff)

lemma find_socket_slot:
  assumes "0 \<le> socket_id" and "length (sockets s) = 256"
  shows "find_socket socket_id s = Inr (sockets s ! nat (socket_id mod 256))"
  using assms by (simp add: find_socket_def array_read_def c_mod_nonneg)

lemma store_socket_slot:
  assumes "length (sockets s) = 256" and "socket_count s < MAX_SOCKETS"
    and "0 \<le> next_socket_id s" and "next_socket_id s < INT_MAX"
  shows "store_socket sock s =
           Inr (next_socket_id s,
                s\<lparr>next_socket_id := next_socket_id s + 1,
                  sockets := (sockets s)[nat (next_socket_id s mod 256) := sock],
                  socket_count := socket_count s + 1\<rparr>)"
  using assms by (simp add: store_socket_def c_mod_nonneg Let_def)

lemma store_socket_full:
  "MAX_SOCKETS \<le> socket_count s \<Longrightarrow> store_socket sock s = Inr (-1, s)"
  by (simp add: store_socket_def)

lemma remove_socket_occupied:
  assumes "0 \<le> socket_id" and "length (sockets s) = 256"
    and "sockets s ! nat (socket_id mod 256) \<noteq> INVALID_SOCKET"
    and "INT_MIN < socket_count s"
  shows "remove_socket socket_id s =
           Inr (s\<lparr>os_calls := os_calls s @ [Sys_close (sockets s ! nat (socket_id mod 256))],
                  open_fds := open_fds s - {sockets s ! nat (socket_id mod 256)},
                  sockets := (sockets s)[nat (socket_id mod 256) := INVALID_SOCKET],
                  socket_count := socket_count s - 1\<rparr>)"
  using assms
  by (simp add: remove_socket_def array_read_def c_mod_nonneg os_close_def os_log_def Let_def)

text \<open>
  A negative identifier leaves the array: \<^verbatim>\<open>-1 % 256\<close> is \<open>-1\<close> in C, and the source
  reads \<^verbatim>\<open>sockets[-1]\<close>.
\<close>

lemma find_socket_negative:
  "find_socket (- 1) s = Inl OutOfBounds"
  by (simp add: find_socket_def array_read_def c_mod_def MAX_SOCKETS_def)

subsection \<open>Invalid handles\<close>

text \<open>
  Claim C1 says that send, receive and close answer \<open>{false, 0, InvalidSocket}\<close> for
  every identifier that no successful connect has returned or that has been closed.
  The code decides by the slot alone: the three operations answer
  \<open>{false, 0, InvalidSocket}\<close>, and change nothing, whenever the slot
  \<open>socket_id mod 256\<close> of a non-negative identifier holds the sentinel, as it does
  once the identifier has been closed and until a later connect takes the slot again.
  That is the statement proved here (C1 as amended).
\<close>

theorem sentinel_slot_rejects:
  assumes "0 \<le> socket_id" and "length (sockets s) = 256"
    and "sockets s ! nat (socket_id mod 256) = INVALID_SOCKET"
  shows "ibmoon_socket_send socket_id len os s =
           Inr (\<lparr>out_success = 0, out_value = 0, out_error = ERROR_INVALID_SOCKET\<rparr>, s)
       \<and> ibmoon_socket_receive socket_id buffer_len timeout_ms os s =
           Inr (\<lparr>out_success = 0, out_value = 0, out_error = ERROR_INVALID_SOCKET\<rparr>, s)
       \<and> ibmoon_socket_close socket_id s =
           Inr (\<lparr>out_success = 0, out_value = 0, out_error = ERROR_INVALID_SOCKET\<rparr>, s)"
  using assms
  by (simp add: ibmoon_socket_send_def ibmoon_socket_receive_def ibmoon_socket_close_def
      find_socket_slot)

text \<open>Identifier 1 after it has been closed.\<close>

theorem sentinel_slot_rejects_witness:
  "(0::int) \<le> 1 \<and> length (sockets closed_state) = 256
   \<and> sockets closed_state ! nat (1 mod 256) = INVALID_SOCKET
   \<and> ibmoon_socket_send 1 4 \<lparr>io_ret = 4, io_errno = Other_errno 0\<rparr> closed_state =
       Inr (\<lparr>out_success = 0, out_value = 0, out_error = ERROR_INVALID_SOCKET\<rparr>, closed_state)
   \<and> ibmoon_socket_receive 1 64 1000 \<lparr>io_ret = 4, io_errno = Other_errno 0\<rparr> closed_state =
       Inr (\<lparr>out_success = 0, out_value = 0, out_error = ERROR_INVALID_SOCKET\<rparr>, closed_state)
   \<and> ibmoon_socket_close 1 closed_state =
       Inr (\<lparr>out_success = 0, out_value = 0, out_error = ERROR_INVALID_SOCKET\<rparr>, closed_state)"
proof -
  have len: "length (sockets closed_state) = 256"
    by (simp add: closed_state_def)
  have slot: "sockets closed_state ! nat (1 mod 256) = INVALID_SOCKET"
    by (simp add: closed_state_def INVALID_SOCKET_def)
  have nonneg: "(0::int) \<le> 1"
    by simp
  show ?thesis
    using len slot
      sentinel_slot_rejects [OF nonneg len slot,
        of 4 "\<lparr>io_ret = 4, io_errno = Other_errno 0\<rparr>" 64 1000]
    by simp
qed

text \<open>
  C1 as stated fails: the first connect of a process returns identifier 1, identifier
  257 has never been returned, and yet send on 257 transmits on the descriptor of
  identifier 1 and close on 257 closes it.
\<close>

theorem invalid_handle_counterexample:
  "ibmoon_socket_connect ''127.0.0.1'' 9999 500 accepts initial_state =
     Inr (\<lparr>out_success = 1, out_value = 1, out_error = ERROR_NONE\<rparr>, connected_state)
   \<and> ibmoon_socket_send 257 4 \<lparr>io_ret = 4, io_errno = Other_errno 0\<rparr> connected_state =
     Inr (\<lparr>out_success = 1, out_value = 4, out_error = ERROR_NONE\<rparr>,
          os_log (Sys_send 3 4) connected_state)
   \<and> ibmoon_socket_close 257 connected_state =
     Inr (\<lparr>out_success = 1, out_value = 0, out_error = ERROR_NONE\<rparr>, closed_state)
   \<and> ERROR_NONE \<noteq> ERROR_INVALID_SOCKET"
  by (simp add: model_defs initial_state_def accepts_def connected_state_def
      closed_state_def c_consts)

subsection \<open>The invariant of the handle table\<close>

text \<open>
  Claim C2 says that the invariant holds in the initial state: every slot not yet
  allocated holds the sentinel. In the code the array starts as 256 zeros and is never
  set to \<open>INVALID_SOCKET\<close>, so that before any connect every identifier finds
  descriptor 0: send on identifier 1 goes to the operating system on descriptor 0,
  and close on identifier 1 closes descriptor 0, reports success and leaves
  \<open>socket_count\<close> at \<open>-1\<close>.
\<close>

theorem initial_table_holds_no_sentinel:
  "sockets initial_state = replicate 256 0
   \<and> INVALID_SOCKET \<notin> set (sockets initial_state)
   \<and> \<not> handle_table_invariant initial_state
   \<and> find_socket 1 initial_state = Inr 0
   \<and> ibmoon_socket_send 1 4 \<lparr>io_ret = - 1, io_errno = Other_errno 88\<rparr> initial_state =
       Inr (\<lparr>out_success = 0, out_value = 0, out_error = ERROR_UNKNOWN\<rparr>,
            os_log (Sys_send 0 4) initial_state)
   \<and> ibmoon_socket_close 1 initial_state =
       Inr (\<lparr>out_success = 1, out_value = 0, out_error = ERROR_NONE\<rparr>,
            \<lparr>sockets = (replicate 256 0)[1 := - 1], socket_count = - 1, next_socket_id = 1,
             open_fds = {}, os_calls = [Sys_close 0]\<rparr>)"
  by (simp add: model_defs handle_table_invariant_def slots_ok_def list_all_iff
      initial_state_def c_consts)

text \<open>
  From a state that does satisfy the invariant, every operation keeps it, provided
  \<^verbatim>\<open>socket\<close> answers a descriptor that is not open already and the next identifier
  is not negative; and the table of 256 sentinels satisfies it. So the initial value
  of the array is the only thing that breaks it.
\<close>

lemma count_list_update:
  "i < length xs \<Longrightarrow>
     count_list (xs[i := v]) d + (if xs ! i = d then 1 else 0) =
     count_list xs d + (if v = d then 1 else 0)"
proof (induction xs arbitrary: i)
  case Nil
  then show ?case by simp
next
  case (Cons x xs)
  show ?case
  proof (cases i)
    case 0
    then show ?thesis by simp
  next
    case (Suc j)
    with Cons.prems have "j < length xs" by simp
    from Cons.IH [OF this] Suc show ?thesis by (auto split: if_splits)
  qed
qed

lemma slots_ok_iff:
  "slots_ok F xs \<longleftrightarrow> (\<forall>d \<in> set xs. d = INVALID_SOCKET \<or> (d \<in> F \<and> count_list xs d = 1))"
  by (simp add: slots_ok_def list_all_iff)

lemma slots_ok_store:
  assumes ok: "slots_ok F xs" and i: "i < length xs" and fresh: "v \<notin> F"
  shows "slots_ok (insert v F) (xs[i := v])"
  unfolding slots_ok_iff
proof (intro ballI)
  fix d
  assume d: "d \<in> set (xs[i := v])"
  show "d = INVALID_SOCKET \<or> (d \<in> insert v F \<and> count_list (xs[i := v]) d = 1)"
  proof (cases "d = INVALID_SOCKET")
    case True
    then show ?thesis by simp
  next
    case False
    note cu = count_list_update [OF i, of v d]
    show ?thesis
    proof (cases "d = v")
      case True
      with False fresh ok have "v \<notin> set xs"
        by (auto simp add: slots_ok_iff)
      then have "count_list xs v = 0" and "xs ! i \<noteq> v"
        using i by (auto simp add: count_list_0_iff)
      with cu True show ?thesis by simp
    next
      case dv: False
      from d have "d \<in> insert v (set xs)"
        using set_update_subset_insert by fastforce
      with dv have dx: "d \<in> set xs" by simp
      with ok False have dF: "d \<in> F" and c1: "count_list xs d = 1"
        by (auto simp add: slots_ok_iff)
      have "xs ! i \<noteq> d"
      proof
        assume "xs ! i = d"
        with cu c1 dv have "count_list (xs[i := v]) d = 0" by simp
        with d show False by (simp add: count_list_0_iff)
      qed
      with cu c1 dv dF show ?thesis by simp
    qed
  qed
qed

lemma slots_ok_remove:
  assumes ok: "slots_ok F xs" and i: "i < length xs"
  shows "slots_ok (F - {xs ! i}) (xs[i := INVALID_SOCKET])"
  unfolding slots_ok_iff
proof (intro ballI)
  fix d
  assume d: "d \<in> set (xs[i := INVALID_SOCKET])"
  show "d = INVALID_SOCKET \<or>
        (d \<in> F - {xs ! i} \<and> count_list (xs[i := INVALID_SOCKET]) d = 1)"
  proof (cases "d = INVALID_SOCKET")
    case True
    then show ?thesis by simp
  next
    case False
    note cu = count_list_update [OF i, of INVALID_SOCKET d]
    from d have "d \<in> insert INVALID_SOCKET (set xs)"
      using set_update_subset_insert by fastforce
    with False have dx: "d \<in> set xs" by simp
    with ok False have dF: "d \<in> F" and c1: "count_list xs d = 1"
      by (auto simp add: slots_ok_iff)
    have "xs ! i \<noteq> d"
    proof
      assume "xs ! i = d"
      with cu c1 False have "count_list (xs[i := INVALID_SOCKET]) d = 0" by simp
      with d show False by (simp add: count_list_0_iff)
    qed
    with cu c1 False dF show ?thesis by simp
  qed
qed

lemma invariant_slots_ok:
  "handle_table_invariant s \<longleftrightarrow> length (sockets s) = 256 \<and> slots_ok (open_fds s) (sockets s)"
  by (simp add: handle_table_invariant_def MAX_SOCKETS_def)

lemma send_preserves_invariant:
  assumes "handle_table_invariant s"
    and "ibmoon_socket_send socket_id len os s = Inr (r, s')"
  shows "handle_table_invariant s'"
  using assms
  by (auto simp add: invariant_slots_ok ibmoon_socket_send_def os_log_def Let_def
      split: sum.splits if_splits)

lemma receive_preserves_invariant:
  assumes "handle_table_invariant s"
    and "ibmoon_socket_receive socket_id buffer_len timeout_ms os s = Inr (r, s')"
  shows "handle_table_invariant s'"
  using assms
  by (auto simp add: invariant_slots_ok ibmoon_socket_receive_def os_log_def Let_def
      split: sum.splits if_splits)

lemma remove_socket_preserves_invariant:
  assumes "handle_table_invariant s" and "remove_socket socket_id s = Inr s'"
  shows "handle_table_invariant s'"
  using assms
  by (auto simp add: invariant_slots_ok remove_socket_def array_read_def os_close_def
      os_log_def Let_def slots_ok_remove split: sum.splits if_splits)

lemma close_preserves_invariant:
  assumes "handle_table_invariant s" and "ibmoon_socket_close socket_id s = Inr (r, s')"
  shows "handle_table_invariant s'"
  using assms
  by (auto simp add: ibmoon_socket_close_def split: sum.splits if_splits
      dest: remove_socket_preserves_invariant)

lemma connect_pending_effect:
  "connect_pending sock timeout_ms os s = Inl (r, s') \<Longrightarrow>
     sockets s' = sockets s \<and> next_socket_id s' = next_socket_id s
     \<and> open_fds s' = open_fds s - {sock}"
  "connect_pending sock timeout_ms os s = Inr s'' \<Longrightarrow>
     sockets s'' = sockets s \<and> next_socket_id s'' = next_socket_id s
     \<and> socket_count s'' = socket_count s \<and> open_fds s'' = open_fds s"
  by (auto simp add: connect_pending_def os_close_def os_log_def Let_def split: if_splits)

lemma connect_register_preserves:
  assumes len: "length (sockets s) = 256" and ok: "slots_ok F (sockets s)"
    and fresh: "sock \<notin> F" and fds: "open_fds s = insert sock F"
    and nxt: "0 \<le> next_socket_id s"
    and run: "connect_register sock s = Inr (r, s')"
  shows "handle_table_invariant s' \<and> 0 \<le> next_socket_id s'"
proof (cases "socket_count s < MAX_SOCKETS")
  case False
  then have "store_socket sock (os_log (Sys_set_nonblock sock False) s) =
             Inr (- 1, os_log (Sys_set_nonblock sock False) s)"
    by (simp add: store_socket_full os_log_def)
  with run have "s' = os_close sock (os_log (Sys_set_nonblock sock False) s)"
    by (simp add: connect_register_def Let_def)
  with len ok fresh fds nxt show ?thesis
    by (simp add: invariant_slots_ok os_close_def os_log_def)
next
  case True
  show ?thesis
  proof (cases "next_socket_id s = INT_MAX")
    case True
    with \<open>socket_count s < MAX_SOCKETS\<close> run show ?thesis
      by (simp add: connect_register_def store_socket_def os_log_def Let_def)
  next
    case False
    let ?t = "os_log (Sys_set_nonblock sock False) s"
    let ?i = "nat (next_socket_id s mod 256)"
    have "store_socket sock ?t =
           Inr (next_socket_id ?t,
                ?t\<lparr>next_socket_id := next_socket_id ?t + 1,
                   sockets := (sockets ?t)[nat (next_socket_id ?t mod 256) := sock],
                   socket_count := socket_count ?t + 1\<rparr>)"
      using len True False nxt
      by (simp add: store_socket_def c_mod_nonneg os_log_def Let_def)
    with run nxt have s': "s' = ?t\<lparr>next_socket_id := next_socket_id ?t + 1,
                   sockets := (sockets ?t)[nat (next_socket_id ?t mod 256) := sock],
                   socket_count := socket_count ?t + 1\<rparr>"
      by (simp add: connect_register_def Let_def os_log_def)
    have "?i < length (sockets s)"
      using len by simp
    from slots_ok_store [OF ok this fresh] s' len fds nxt show ?thesis
      by (simp add: invariant_slots_ok os_log_def)
  qed
qed

lemma connect_paths:
  assumes "ibmoon_socket_connect host port timeout_ms os s = Inr (r, s')"
  shows "(sockets s' = sockets s \<and> next_socket_id s' = next_socket_id s \<and>
          (open_fds s' = open_fds s \<or>
           open_fds s' = insert (socket_ret os) (open_fds s) - {socket_ret os}))
       \<or> (\<exists>t. sockets t = sockets s \<and> next_socket_id t = next_socket_id s \<and>
               open_fds t = insert (socket_ret os) (open_fds s) \<and>
               connect_register (socket_ret os) t = Inr (r, s'))"
proof (cases "socket_ret os = INVALID_SOCKET")
  case True
  with assms show ?thesis
    by (auto simp add: ibmoon_socket_connect_def os_socket_def os_log_def Let_def)
next
  case sock: False
  show ?thesis
  proof (cases "inet_pton_ret os \<le> 0")
    case True
    with sock assms show ?thesis
      by (auto simp add: ibmoon_socket_connect_def os_socket_def os_close_def os_log_def Let_def)
  next
    case pton: False
    let ?s4 = "os_log (Sys_connect (socket_ret os) port)
                 (os_log (Sys_inet_pton host)
                   (os_log (Sys_set_nonblock (socket_ret os) True)
                     (os_socket (socket_ret os) s)))"
    have s4: "sockets ?s4 = sockets s" "next_socket_id ?s4 = next_socket_id s"
      "open_fds ?s4 = insert (socket_ret os) (open_fds s)"
      using sock by (simp_all add: os_socket_def os_log_def Let_def)
    show ?thesis
    proof (cases "connect_ret os = SOCKET_ERROR")
      case False
      with sock pton assms have "connect_register (socket_ret os) ?s4 = Inr (r, s')"
        by (simp add: ibmoon_socket_connect_def Let_def)
      with s4 show ?thesis
        by (intro disjI2 exI [of _ ?s4]) simp
    next
      case True
      show ?thesis
      proof (cases "connect_pending (socket_ret os) timeout_ms os ?s4")
        case (Inl early)
        with True sock pton assms have "early = (r, s')"
          by (simp add: ibmoon_socket_connect_def Let_def)
        with Inl have "connect_pending (socket_ret os) timeout_ms os ?s4 = Inl (r, s')"
          by simp
        from connect_pending_effect(1) [OF this] s4 show ?thesis
          by simp
      next
        case (Inr s5)
        with True sock pton assms have "connect_register (socket_ret os) s5 = Inr (r, s')"
          by (simp add: ibmoon_socket_connect_def Let_def)
        moreover from connect_pending_effect(2) [OF Inr] s4
        have "sockets s5 = sockets s" "next_socket_id s5 = next_socket_id s"
          "open_fds s5 = insert (socket_ret os) (open_fds s)"
          by simp_all
        ultimately show ?thesis
          by (intro disjI2 exI [of _ s5]) simp
      qed
    qed
  qed
qed

lemma connect_preserves_invariant:
  assumes inv: "handle_table_invariant s" and nxt: "0 \<le> next_socket_id s"
    and fresh: "socket_ret os \<notin> open_fds s"
    and run: "ibmoon_socket_connect host port timeout_ms os s = Inr (r, s')"
  shows "handle_table_invariant s' \<and> 0 \<le> next_socket_id s'"
proof -
  from inv have len: "length (sockets s) = 256" and ok: "slots_ok (open_fds s) (sockets s)"
    by (simp_all add: invariant_slots_ok)
  from connect_paths [OF run] show ?thesis
  proof
    assume "sockets s' = sockets s \<and> next_socket_id s' = next_socket_id s \<and>
          (open_fds s' = open_fds s \<or>
           open_fds s' = insert (socket_ret os) (open_fds s) - {socket_ret os})"
    with len ok fresh nxt show ?thesis
      by (auto simp add: invariant_slots_ok)
  next
    assume "\<exists>t. sockets t = sockets s \<and> next_socket_id t = next_socket_id s \<and>
               open_fds t = insert (socket_ret os) (open_fds s) \<and>
               connect_register (socket_ret os) t = Inr (r, s')"
    then obtain t where t: "sockets t = sockets s" "next_socket_id t = next_socket_id s"
      "open_fds t = insert (socket_ret os) (open_fds s)"
      "connect_register (socket_ret os) t = Inr (r, s')"
      by blast
    show ?thesis
      using connect_register_preserves [of t "open_fds s" "socket_ret os" r s'] t len ok fresh nxt
      by simp
  qed
qed

lemma sentinel_table_invariant:
  "handle_table_invariant (initial_state\<lparr>sockets := replicate 256 INVALID_SOCKET\<rparr>)"
  by (simp add: handle_table_invariant_def slots_ok_def list_all_iff MAX_SOCKETS_def)

text \<open>
  Every operation keeps the number of slots and never lowers the next identifier;
  send and receive leave the table and the set of open descriptors as they are.
\<close>

lemma connect_register_shape:
  "connect_register sock s = Inr (r, s') \<Longrightarrow>
     length (sockets s') = length (sockets s) \<and> next_socket_id s \<le> next_socket_id s'"
  by (auto simp add: connect_register_def store_socket_def os_close_def os_log_def Let_def
      split: sum.splits prod.splits if_splits)

lemma connect_shape:
  assumes "ibmoon_socket_connect host port timeout_ms os s = Inr (r, s')"
  shows "length (sockets s') = length (sockets s) \<and> next_socket_id s \<le> next_socket_id s'"
proof -
  from connect_paths [OF assms] show ?thesis
  proof
    assume "sockets s' = sockets s \<and> next_socket_id s' = next_socket_id s \<and>
          (open_fds s' = open_fds s \<or>
           open_fds s' = insert (socket_ret os) (open_fds s) - {socket_ret os})"
    then show ?thesis by simp
  next
    assume "\<exists>t. sockets t = sockets s \<and> next_socket_id t = next_socket_id s \<and>
               open_fds t = insert (socket_ret os) (open_fds s) \<and>
               connect_register (socket_ret os) t = Inr (r, s')"
    then obtain t where "sockets t = sockets s" "next_socket_id t = next_socket_id s"
      "connect_register (socket_ret os) t = Inr (r, s')"
      by blast
    with connect_register_shape [of "socket_ret os" t r s'] show ?thesis by simp
  qed
qed

lemma send_shape:
  "ibmoon_socket_send socket_id len os s = Inr (r, s') \<Longrightarrow>
     sockets s' = sockets s \<and> next_socket_id s' = next_socket_id s
     \<and> socket_count s' = socket_count s \<and> open_fds s' = open_fds s"
  by (auto simp add: ibmoon_socket_send_def os_log_def Let_def split: sum.splits if_splits)

lemma receive_shape:
  "ibmoon_socket_receive socket_id buffer_len timeout_ms os s = Inr (r, s') \<Longrightarrow>
     sockets s' = sockets s \<and> next_socket_id s' = next_socket_id s
     \<and> socket_count s' = socket_count s \<and> open_fds s' = open_fds s"
  by (auto simp add: ibmoon_socket_receive_def os_log_def Let_def split: sum.splits if_splits)

lemma close_shape:
  "ibmoon_socket_close socket_id s = Inr (r, s') \<Longrightarrow>
     length (sockets s') = length (sockets s) \<and> next_socket_id s' = next_socket_id s"
  by (auto simp add: ibmoon_socket_close_def remove_socket_def os_close_def os_log_def Let_def
      split: sum.splits if_splits)

subsection \<open>Identifier modulo capacity\<close>

text \<open>
  Claim C3: \<open>store_socket\<close> and \<open>find_socket\<close> both take the slot
  \<open>identifier mod 256\<close>, so that two identifiers that differ by a multiple of 256
  have the same slot. Identifiers are the non-negative values that \<open>store_socket\<close>
  mints; \<open>a\<close> and \<open>b\<close> are two of them, looked up in the same table and minted from
  the same table.
\<close>

theorem slot_is_identifier_modulo_capacity:
  assumes "0 \<le> a" and "0 \<le> b" and "MAX_SOCKETS dvd a - b"
    and "length (sockets s) = 256"
    and "socket_count s < MAX_SOCKETS" and "a < INT_MAX" and "b < INT_MAX"
  shows "find_socket a s = Inr (sockets s ! nat (a mod 256))
       \<and> find_socket b s = Inr (sockets s ! nat (a mod 256))
       \<and> store_socket sock (s\<lparr>next_socket_id := a\<rparr>) =
           Inr (a, s\<lparr>next_socket_id := a + 1,
                     sockets := (sockets s)[nat (a mod 256) := sock],
                     socket_count := socket_count s + 1\<rparr>)
       \<and> store_socket sock (s\<lparr>next_socket_id := b\<rparr>) =
           Inr (b, s\<lparr>next_socket_id := b + 1,
                     sockets := (sockets s)[nat (a mod 256) := sock],
                     socket_count := socket_count s + 1\<rparr>)"
proof -
  have ab: "a mod 256 = b mod 256"
    using assms(3) by (rule same_slot)
  have fa: "find_socket a s = Inr (sockets s ! nat (a mod 256))"
    using assms by (simp add: find_socket_slot)
  have fb: "find_socket b s = Inr (sockets s ! nat (a mod 256))"
    using assms ab by (simp add: find_socket_slot)
  have sa: "store_socket sock (s\<lparr>next_socket_id := a\<rparr>) =
           Inr (a, s\<lparr>next_socket_id := a + 1,
                     sockets := (sockets s)[nat (a mod 256) := sock],
                     socket_count := socket_count s + 1\<rparr>)"
    using assms by (simp add: store_socket_slot)
  have sb: "store_socket sock (s\<lparr>next_socket_id := b\<rparr>) =
           Inr (b, s\<lparr>next_socket_id := b + 1,
                     sockets := (sockets s)[nat (a mod 256) := sock],
                     socket_count := socket_count s + 1\<rparr>)"
    using assms ab by (simp add: store_socket_slot)
  from fa fb sa sb show ?thesis by simp
qed

text \<open>Identifiers 1 and 257 in the table that holds descriptor 3 in slot 1.\<close>

theorem slot_is_identifier_modulo_capacity_witness:
  "(0::int) \<le> 1 \<and> (0::int) \<le> 257 \<and> MAX_SOCKETS dvd 1 - 257
   \<and> length (sockets connected_state) = 256
   \<and> socket_count connected_state < MAX_SOCKETS \<and> 1 < INT_MAX \<and> 257 < INT_MAX
   \<and> find_socket 1 connected_state = Inr 3
   \<and> find_socket 257 connected_state = Inr 3
   \<and> store_socket 9 (connected_state\<lparr>next_socket_id := 1\<rparr>) =
       Inr (1, connected_state\<lparr>next_socket_id := 2,
                 sockets := (replicate 256 0)[1 := 9], socket_count := 2\<rparr>)
   \<and> store_socket 9 (connected_state\<lparr>next_socket_id := 257\<rparr>) =
       Inr (257, connected_state\<lparr>next_socket_id := 258,
                 sockets := (replicate 256 0)[1 := 9], socket_count := 2\<rparr>)"
proof -
  have h: "(0::int) \<le> 1" "(0::int) \<le> 257" "MAX_SOCKETS dvd 1 - 257"
    "length (sockets connected_state) = 256"
    "socket_count connected_state < MAX_SOCKETS" "1 < INT_MAX" "257 < INT_MAX"
    by (simp_all add: connected_state_def c_consts)
  show ?thesis
    using h slot_is_identifier_modulo_capacity [OF h, of 9]
    by (simp add: connected_state_def)
qed

subsection \<open>Connect\<close>

text \<open>
  Claim C4: a connect with \<open>timeout_ms > 0\<close> whose \<^verbatim>\<open>connect\<close> reports
  \<open>EINPROGRESS\<close> closes the socket and answers \<open>{false, 0, Timeout}\<close> when \<^verbatim>\<open>select\<close>
  returns 0, and closes the socket and answers \<open>{false, 0, ConnectionRefused}\<close> when
  \<^verbatim>\<open>select\<close> signals readiness and the pending error of the socket is not 0. The
  table is left as it was.
\<close>

theorem connect_timeout_or_refused:
  assumes "socket_ret os \<noteq> INVALID_SOCKET" and "0 < inet_pton_ret os"
    and "connect_ret os = SOCKET_ERROR" and "connect_errno os = EINPROGRESS"
    and "0 < timeout_ms"
  shows "(select_ret os = 0 \<longrightarrow>
            ibmoon_socket_connect host port timeout_ms os s =
              Inr (\<lparr>out_success = 0, out_value = 0, out_error = ERROR_TIMEOUT\<rparr>,
                   s\<lparr>os_calls := os_calls s @
                        [Sys_socket (socket_ret os), Sys_set_nonblock (socket_ret os) True,
                         Sys_inet_pton host, Sys_connect (socket_ret os) port,
                         Sys_select (socket_ret os) timeout_ms, Sys_close (socket_ret os)],
                      open_fds := open_fds s - {socket_ret os}\<rparr>))
       \<and> (0 < select_ret os \<and> so_error os \<noteq> 0 \<longrightarrow>
            ibmoon_socket_connect host port timeout_ms os s =
              Inr (\<lparr>out_success = 0, out_value = 0, out_error = ERROR_CONNECTION_REFUSED\<rparr>,
                   s\<lparr>os_calls := os_calls s @
                        [Sys_socket (socket_ret os), Sys_set_nonblock (socket_ret os) True,
                         Sys_inet_pton host, Sys_connect (socket_ret os) port,
                         Sys_select (socket_ret os) timeout_ms,
                         Sys_getsockopt_so_error (socket_ret os), Sys_close (socket_ret os)],
                      open_fds := open_fds s - {socket_ret os}\<rparr>))"
  using assms
  by (simp add: ibmoon_socket_connect_def connect_pending_def os_socket_def os_close_def
      os_log_def Let_def)

text \<open>
  A filtered address with a timeout of 200 ms, and a port nobody listens on with a
  timeout of 500 ms (pending error 111).
\<close>

theorem connect_timeout_or_refused_witness:
  "socket_ret (in_progress 0 0) \<noteq> INVALID_SOCKET \<and> 0 < inet_pton_ret (in_progress 0 0)
   \<and> connect_ret (in_progress 0 0) = SOCKET_ERROR
   \<and> connect_errno (in_progress 0 0) = EINPROGRESS \<and> (0::int) < 200
   \<and> select_ret (in_progress 0 0) = 0
   \<and> ibmoon_socket_connect ''10.255.255.1'' 9 200 (in_progress 0 0) initial_state =
       Inr (\<lparr>out_success = 0, out_value = 0, out_error = ERROR_TIMEOUT\<rparr>,
            initial_state\<lparr>os_calls :=
              [Sys_socket 3, Sys_set_nonblock 3 True, Sys_inet_pton ''10.255.255.1'',
               Sys_connect 3 9, Sys_select 3 200, Sys_close 3]\<rparr>)
   \<and> socket_ret (in_progress 1 111) \<noteq> INVALID_SOCKET
   \<and> 0 < inet_pton_ret (in_progress 1 111)
   \<and> connect_ret (in_progress 1 111) = SOCKET_ERROR
   \<and> connect_errno (in_progress 1 111) = EINPROGRESS \<and> (0::int) < 500
   \<and> 0 < select_ret (in_progress 1 111) \<and> so_error (in_progress 1 111) \<noteq> 0
   \<and> ibmoon_socket_connect ''127.0.0.1'' 9999 500 (in_progress 1 111) initial_state =
       Inr (\<lparr>out_success = 0, out_value = 0, out_error = ERROR_CONNECTION_REFUSED\<rparr>,
            initial_state\<lparr>os_calls :=
              [Sys_socket 3, Sys_set_nonblock 3 True, Sys_inet_pton ''127.0.0.1'',
               Sys_connect 3 9999, Sys_select 3 500, Sys_getsockopt_so_error 3,
               Sys_close 3]\<rparr>)"
  using
    connect_timeout_or_refused [of "in_progress 0 0" 200 "''10.255.255.1''" 9 initial_state]
    connect_timeout_or_refused [of "in_progress 1 111" 500 "''127.0.0.1''" 9999 initial_state]
  by (simp add: in_progress_def initial_state_def c_consts)

text \<open>
  Claim C5: a connect with \<open>timeout_ms = 0\<close> whose \<^verbatim>\<open>connect\<close> reports \<open>EINPROGRESS\<close>
  makes neither the \<^verbatim>\<open>select\<close> nor the \<^verbatim>\<open>getsockopt\<close> call: the socket goes back to
  blocking mode and is registered, and the answer is \<open>{true, identifier, None}\<close>,
  unless the table is full. The system calls made are exactly the ones listed.
\<close>

theorem connect_zero_timeout_in_progress:
  assumes "socket_ret os \<noteq> INVALID_SOCKET" and "0 < inet_pton_ret os"
    and "connect_ret os = SOCKET_ERROR" and "connect_errno os = EINPROGRESS"
    and "length (sockets s) = 256"
    and "0 \<le> next_socket_id s" and "next_socket_id s < INT_MAX"
  shows "(socket_count s < MAX_SOCKETS \<longrightarrow>
            ibmoon_socket_connect host port 0 os s =
              Inr (\<lparr>out_success = 1, out_value = next_socket_id s, out_error = ERROR_NONE\<rparr>,
                   s\<lparr>os_calls := os_calls s @
                        [Sys_socket (socket_ret os), Sys_set_nonblock (socket_ret os) True,
                         Sys_inet_pton host, Sys_connect (socket_ret os) port,
                         Sys_set_nonblock (socket_ret os) False],
                      open_fds := insert (socket_ret os) (open_fds s),
                      next_socket_id := next_socket_id s + 1,
                      sockets := (sockets s)[nat (next_socket_id s mod 256) := socket_ret os],
                      socket_count := socket_count s + 1\<rparr>))
       \<and> (MAX_SOCKETS \<le> socket_count s \<longrightarrow>
            ibmoon_socket_connect host port 0 os s =
              Inr (\<lparr>out_success = 0, out_value = 0, out_error = ERROR_UNKNOWN\<rparr>,
                   s\<lparr>os_calls := os_calls s @
                        [Sys_socket (socket_ret os), Sys_set_nonblock (socket_ret os) True,
                         Sys_inet_pton host, Sys_connect (socket_ret os) port,
                         Sys_set_nonblock (socket_ret os) False, Sys_close (socket_ret os)],
                      open_fds := open_fds s - {socket_ret os}\<rparr>))"
proof (cases "socket_count s < MAX_SOCKETS")
  case True
  then show ?thesis
    using assms
    by (simp add: ibmoon_socket_connect_def connect_pending_def connect_register_def
        store_socket_slot os_socket_def os_log_def Let_def)
next
  case False
  then show ?thesis
    using assms
    by (simp add: ibmoon_socket_connect_def connect_pending_def connect_register_def
        store_socket_full os_socket_def os_close_def os_log_def Let_def)
qed

text \<open>
  The first connect of a process, with timeout 0, and the same connect on a full
  table. What \<^verbatim>\<open>select\<close> and \<^verbatim>\<open>getsockopt\<close> would have answered (nothing ready,
  pending error 111) is never asked for.
\<close>

theorem connect_zero_timeout_in_progress_witness:
  "socket_ret (in_progress 0 111) \<noteq> INVALID_SOCKET \<and> 0 < inet_pton_ret (in_progress 0 111)
   \<and> connect_ret (in_progress 0 111) = SOCKET_ERROR
   \<and> connect_errno (in_progress 0 111) = EINPROGRESS
   \<and> length (sockets initial_state) = 256 \<and> 0 \<le> next_socket_id initial_state
   \<and> next_socket_id initial_state < INT_MAX \<and> socket_count initial_state < MAX_SOCKETS
   \<and> ibmoon_socket_connect ''10.255.255.1'' 9 0 (in_progress 0 111) initial_state =
       Inr (\<lparr>out_success = 1, out_value = 1, out_error = ERROR_NONE\<rparr>,
            \<lparr>sockets = (replicate 256 0)[1 := 3], socket_count = 1, next_socket_id = 2,
             open_fds = {3},
             os_calls = [Sys_socket 3, Sys_set_nonblock 3 True,
                         Sys_inet_pton ''10.255.255.1'', Sys_connect 3 9,
                         Sys_set_nonblock 3 False]\<rparr>)
   \<and> length (sockets full_state) = 256 \<and> 0 \<le> next_socket_id full_state
   \<and> next_socket_id full_state < INT_MAX \<and> MAX_SOCKETS \<le> socket_count full_state
   \<and> ibmoon_socket_connect ''10.255.255.1'' 9 0 (in_progress 0 111) full_state =
       Inr (\<lparr>out_success = 0, out_value = 0, out_error = ERROR_UNKNOWN\<rparr>,
            full_state\<lparr>os_calls :=
              [Sys_socket 3, Sys_set_nonblock 3 True, Sys_inet_pton ''10.255.255.1'',
               Sys_connect 3 9, Sys_set_nonblock 3 False, Sys_close 3],
              open_fds := {4..258}\<rparr>)"
proof -
  have "{3..258} - {3} = {4..(258::int)}"
    by auto
  then show ?thesis
    using
      connect_zero_timeout_in_progress
        [of "in_progress 0 111" initial_state "''10.255.255.1''" 9]
      connect_zero_timeout_in_progress
        [of "in_progress 0 111" full_state "''10.255.255.1''" 9]
    by (simp add: in_progress_def initial_state_def full_state_def c_consts)
qed

text \<open>
  Claim C6: when connect reaches registration and the table is full
  (\<open>socket_count \<ge> 256\<close>), the new socket is closed and the answer is
  \<open>{false, 0, Unknown}\<close>. Registration is reached when \<^verbatim>\<open>connect\<close> completes at once,
  or reports \<open>EINPROGRESS\<close> and either no wait is made or the wait ends with the socket
  ready and no pending error. The table is left as it was, and the last system call
  closes the socket.
\<close>

theorem connect_table_full:
  assumes "socket_ret os \<noteq> INVALID_SOCKET" and "0 < inet_pton_ret os"
    and "connect_ret os \<noteq> SOCKET_ERROR \<or>
         (connect_errno os = EINPROGRESS \<and>
          (timeout_ms \<le> 0 \<or> (0 < select_ret os \<and> so_error os = 0)))"
    and "MAX_SOCKETS \<le> socket_count s"
  shows "ibmoon_socket_connect host port timeout_ms os s =
           Inr (\<lparr>out_success = 0, out_value = 0, out_error = ERROR_UNKNOWN\<rparr>,
                s\<lparr>os_calls := os_calls s @
                     [Sys_socket (socket_ret os), Sys_set_nonblock (socket_ret os) True,
                      Sys_inet_pton host, Sys_connect (socket_ret os) port] @
                     (if connect_ret os = SOCKET_ERROR \<and> 0 < timeout_ms
                      then [Sys_select (socket_ret os) timeout_ms,
                            Sys_getsockopt_so_error (socket_ret os)]
                      else []) @
                     [Sys_set_nonblock (socket_ret os) False, Sys_close (socket_ret os)],
                   open_fds := open_fds s - {socket_ret os}\<rparr>)"
  using assms
  by (auto simp add: ibmoon_socket_connect_def connect_pending_def connect_register_def
      store_socket_full os_socket_def os_close_def os_log_def Let_def)

text \<open>A connect that completes at once, on the full table.\<close>

theorem connect_table_full_witness:
  "socket_ret (accepts\<lparr>socket_ret := 259\<rparr>) \<noteq> INVALID_SOCKET
   \<and> 0 < inet_pton_ret (accepts\<lparr>socket_ret := 259\<rparr>)
   \<and> connect_ret (accepts\<lparr>socket_ret := 259\<rparr>) \<noteq> SOCKET_ERROR
   \<and> MAX_SOCKETS \<le> socket_count full_state
   \<and> ibmoon_socket_connect ''127.0.0.1'' 9999 500 (accepts\<lparr>socket_ret := 259\<rparr>) full_state =
       Inr (\<lparr>out_success = 0, out_value = 0, out_error = ERROR_UNKNOWN\<rparr>,
            full_state\<lparr>os_calls :=
              [Sys_socket 259, Sys_set_nonblock 259 True, Sys_inet_pton ''127.0.0.1'',
               Sys_connect 259 9999, Sys_set_nonblock 259 False, Sys_close 259]\<rparr>)"
proof -
  have "{3..258} - {259} = {3..(258::int)}"
    by auto
  then show ?thesis
    using connect_table_full
      [of "accepts\<lparr>socket_ret := 259\<rparr>" 500 full_state "''127.0.0.1''" 9999]
    by (simp add: accepts_def full_state_def c_consts)
qed

text \<open>
  The full table is reached: 256 connects that complete at once, from the initial
  state and with no close in between, leave \<open>socket_count\<close> at 256.
\<close>

lemma connect_at_once:
  assumes "connects_at_once os" and "length (sockets s) = 256"
    and "socket_count s < MAX_SOCKETS" and "0 \<le> next_socket_id s"
    and "next_socket_id s < INT_MAX"
  shows "\<exists>s'. ibmoon_socket_connect host port timeout_ms os s =
                 Inr (\<lparr>out_success = 1, out_value = next_socket_id s, out_error = ERROR_NONE\<rparr>,
                      s')
              \<and> length (sockets s') = 256 \<and> socket_count s' = socket_count s + 1
              \<and> next_socket_id s' = next_socket_id s + 1"
  using assms
  by (simp add: connects_at_once_def ibmoon_socket_connect_def connect_register_def
      store_socket_slot os_socket_def os_log_def Let_def)

lemma connect_all_counts:
  assumes "list_all connects_at_once oss" and "length (sockets s) = 256"
    and "socket_count s + int (length oss) \<le> MAX_SOCKETS" and "0 \<le> next_socket_id s"
    and "next_socket_id s + int (length oss) \<le> INT_MAX"
  shows "\<exists>s'. connect_all host port timeout_ms oss s = Inr s'
              \<and> length (sockets s') = 256
              \<and> socket_count s' = socket_count s + int (length oss)
              \<and> next_socket_id s' = next_socket_id s + int (length oss)"
  using assms
proof (induction oss arbitrary: s)
  case Nil
  then show ?case by simp
next
  case (Cons os oss)
  from Cons.prems obtain s1 where
    s1: "ibmoon_socket_connect host port timeout_ms os s =
           Inr (\<lparr>out_success = 1, out_value = next_socket_id s, out_error = ERROR_NONE\<rparr>, s1)"
      "length (sockets s1) = 256" "socket_count s1 = socket_count s + 1"
      "next_socket_id s1 = next_socket_id s + 1"
    using connect_at_once [of os s host port timeout_ms] by auto
  from Cons.prems s1 have
    "\<exists>s'. connect_all host port timeout_ms oss s1 = Inr s'
          \<and> length (sockets s') = 256
          \<and> socket_count s' = socket_count s1 + int (length oss)
          \<and> next_socket_id s' = next_socket_id s1 + int (length oss)"
    by (intro Cons.IH) simp_all
  with s1 show ?case by auto
qed

lemma table_full_after_256_connects:
  assumes "list_all connects_at_once oss" and "length oss = 256"
  shows "\<exists>s'. connect_all host port timeout_ms oss initial_state = Inr s'
              \<and> socket_count s' = MAX_SOCKETS \<and> next_socket_id s' = 257"
  using connect_all_counts [of oss initial_state host port timeout_ms] assms
  by (auto simp add: initial_state_def c_consts)

subsection \<open>Close and receive\<close>

text \<open>
  Claim C7: close of an identifier whose slot is occupied closes the descriptor, resets
  the slot to the sentinel, decrements \<open>socket_count\<close> and answers \<open>{true, 0, None}\<close>;
  a second close of the same identifier, issued in the state the first one left,
  answers \<open>{false, 0, InvalidSocket}\<close>.
\<close>

theorem close_releases_then_rejects:
  assumes "0 \<le> socket_id" and "length (sockets s) = 256"
    and "sockets s ! nat (socket_id mod 256) = d" and "d \<noteq> INVALID_SOCKET"
    and "INT_MIN < socket_count s"
  shows "(let s' = s\<lparr>os_calls := os_calls s @ [Sys_close d],
                      open_fds := open_fds s - {d},
                      sockets := (sockets s)[nat (socket_id mod 256) := INVALID_SOCKET],
                      socket_count := socket_count s - 1\<rparr>
          in ibmoon_socket_close socket_id s =
               Inr (\<lparr>out_success = 1, out_value = 0, out_error = ERROR_NONE\<rparr>, s')
           \<and> ibmoon_socket_close socket_id s' =
               Inr (\<lparr>out_success = 0, out_value = 0, out_error = ERROR_INVALID_SOCKET\<rparr>, s'))"
  using assms
  by (simp add: ibmoon_socket_close_def find_socket_slot remove_socket_occupied Let_def)

text \<open>Identifier 1 after the first connect of a process.\<close>

theorem close_releases_then_rejects_witness:
  "(0::int) \<le> 1 \<and> length (sockets connected_state) = 256
   \<and> sockets connected_state ! nat (1 mod 256) = 3 \<and> 3 \<noteq> INVALID_SOCKET
   \<and> INT_MIN < socket_count connected_state
   \<and> ibmoon_socket_close 1 connected_state =
       Inr (\<lparr>out_success = 1, out_value = 0, out_error = ERROR_NONE\<rparr>, closed_state)
   \<and> ibmoon_socket_close 1 closed_state =
       Inr (\<lparr>out_success = 0, out_value = 0, out_error = ERROR_INVALID_SOCKET\<rparr>, closed_state)"
  using close_releases_then_rejects [of 1 connected_state 3]
  by (simp add: connected_state_def closed_state_def c_consts Let_def)

text \<open>
  Claim C8: a receive on a valid identifier (one whose slot \<open>find_socket\<close> finds
  occupied) for which \<^verbatim>\<open>recv\<close> returns 0 answers \<open>{false, 0, Closed}\<close>.
\<close>

theorem receive_orderly_shutdown:
  assumes "find_socket socket_id s = Inr sock" and "sock \<noteq> INVALID_SOCKET"
    and "io_ret os = 0"
  shows "ibmoon_socket_receive socket_id buffer_len timeout_ms os s =
           Inr (\<lparr>out_success = 0, out_value = 0, out_error = ERROR_CLOSED\<rparr>,
                os_log (Sys_recv sock buffer_len)
                  (if timeout_ms > 0 then os_log (Sys_setsockopt_rcvtimeo sock timeout_ms) s
                   else s))"
  using assms by (simp add: ibmoon_socket_receive_def SOCKET_ERROR_def Let_def)

text \<open>Identifier 1 after the first connect of a process, the peer having closed.\<close>

theorem receive_orderly_shutdown_witness:
  "find_socket 1 connected_state = Inr 3 \<and> 3 \<noteq> INVALID_SOCKET
   \<and> io_ret \<lparr>io_ret = 0, io_errno = Other_errno 0\<rparr> = 0
   \<and> ibmoon_socket_receive 1 64 1000 \<lparr>io_ret = 0, io_errno = Other_errno 0\<rparr> connected_state =
       Inr (\<lparr>out_success = 0, out_value = 0, out_error = ERROR_CLOSED\<rparr>,
            os_log (Sys_recv 3 64) (os_log (Sys_setsockopt_rcvtimeo 3 1000) connected_state))"
proof -
  have f: "find_socket 1 connected_state = Inr 3"
    by (simp add: find_socket_def array_read_def connected_state_def c_mod_def MAX_SOCKETS_def)
  have v: "(3::int) \<noteq> INVALID_SOCKET"
    by (simp add: INVALID_SOCKET_def)
  show ?thesis
    using f v
      receive_orderly_shutdown [OF f v, of "\<lparr>io_ret = 0, io_errno = Other_errno 0\<rparr>" 64 1000]
    by simp
qed

subsection \<open>The result triple\<close>

lemma get_socket_error_range:
  "get_socket_error e \<in> {ERROR_CONNECTION_REFUSED, ERROR_TIMEOUT, ERROR_CLOSED, ERROR_UNKNOWN}"
  by (cases e) simp_all

lemma get_socket_error_consistent:
  "triple_consistent \<lparr>out_success = 0, out_value = v, out_error = get_socket_error e\<rparr>"
  using get_socket_error_range [of e] by (auto simp add: triple_consistent_def)

lemma failure_consistent:
  "e \<in> {ERROR_CONNECTION_REFUSED, ERROR_TIMEOUT, ERROR_CLOSED, ERROR_INVALID_SOCKET, ERROR_UNKNOWN}
   \<Longrightarrow> triple_consistent \<lparr>out_success = 0, out_value = v, out_error = e\<rparr>"
  by (simp add: triple_consistent_def)

lemma success_consistent:
  "triple_consistent \<lparr>out_success = 1, out_value = v, out_error = ERROR_NONE\<rparr>"
  by (simp add: triple_consistent_def)

lemma connect_pending_consistent:
  "connect_pending sock timeout_ms os s = Inl (r, s') \<Longrightarrow> triple_consistent r"
  by (auto simp add: connect_pending_def Let_def get_socket_error_consistent failure_consistent
      split: if_splits)

lemma connect_register_consistent:
  "connect_register sock s = Inr (r, s') \<Longrightarrow> triple_consistent r"
  by (auto simp add: connect_register_def Let_def failure_consistent success_consistent
      split: sum.splits prod.splits if_splits)

lemma connect_consistent:
  "ibmoon_socket_connect host port timeout_ms os s = Inr (r, s') \<Longrightarrow> triple_consistent r"
  by (auto simp add: ibmoon_socket_connect_def Let_def failure_consistent
      split: if_splits sum.splits
      dest: connect_pending_consistent connect_register_consistent)

lemma send_consistent:
  "ibmoon_socket_send socket_id len os s = Inr (r, s') \<Longrightarrow> triple_consistent r"
  by (auto simp add: ibmoon_socket_send_def Let_def failure_consistent success_consistent
      get_socket_error_consistent split: if_splits sum.splits)

lemma receive_consistent:
  "ibmoon_socket_receive socket_id buffer_len timeout_ms os s = Inr (r, s')
   \<Longrightarrow> triple_consistent r"
  by (auto simp add: ibmoon_socket_receive_def Let_def failure_consistent success_consistent
      get_socket_error_consistent split: if_splits sum.splits)

lemma close_consistent:
  "ibmoon_socket_close socket_id s = Inr (r, s') \<Longrightarrow> triple_consistent r"
  by (auto simp add: ibmoon_socket_close_def failure_consistent success_consistent
      split: if_splits sum.splits)

text \<open>
  The operations return: connect on every table of 256 slots whose next identifier
  is in \<open>0 \<dots> INT_MAX - 1\<close>, the others on every non-negative identifier.
\<close>

lemma connect_register_returns:
  assumes "length (sockets s) = 256" and "0 \<le> next_socket_id s"
    and "next_socket_id s < INT_MAX"
  shows "\<exists>r s'. connect_register sock s = Inr (r, s')"
proof (cases "socket_count s < MAX_SOCKETS")
  case True
  with assms show ?thesis
    by (simp add: connect_register_def Let_def store_socket_slot os_log_def)
next
  case False
  then show ?thesis
    by (simp add: connect_register_def Let_def store_socket_full os_log_def)
qed

lemma connect_returns:
  assumes "length (sockets s) = 256" and "0 \<le> next_socket_id s"
    and "next_socket_id s < INT_MAX"
  shows "\<exists>r s'. ibmoon_socket_connect host port timeout_ms os s = Inr (r, s')"
proof -
  have reg: "\<exists>r s'. connect_register sock t = Inr (r, s')"
    if "sockets t = sockets s" "next_socket_id t = next_socket_id s" for sock t
    using that assms connect_register_returns [of t sock] by simp
  show ?thesis
    unfolding ibmoon_socket_connect_def Let_def
    by (auto split: sum.splits dest!: connect_pending_effect(2)
        intro!: reg simp add: os_log_def os_socket_def)
qed

lemma send_returns:
  assumes "0 \<le> socket_id" and "length (sockets s) = 256"
  shows "\<exists>r s'. ibmoon_socket_send socket_id len os s = Inr (r, s')"
  using assms by (simp add: ibmoon_socket_send_def find_socket_slot Let_def)

lemma receive_returns:
  assumes "0 \<le> socket_id" and "length (sockets s) = 256"
  shows "\<exists>r s'. ibmoon_socket_receive socket_id buffer_len timeout_ms os s = Inr (r, s')"
  using assms by (simp add: ibmoon_socket_receive_def find_socket_slot Let_def)

lemma close_returns:
  assumes "0 \<le> socket_id" and "length (sockets s) = 256" and "INT_MIN < socket_count s"
  shows "\<exists>r s'. ibmoon_socket_close socket_id s = Inr (r, s')"
  using assms by (simp add: ibmoon_socket_close_def find_socket_slot remove_socket_occupied)

text \<open>
  Claim C9: whatever the inputs, the triple that connect, send, receive or close
  returns is a success with \<open>ERROR_NONE\<close> or a failure with one of the five other
  error codes, and \<open>get_socket_error\<close> never yields \<open>ERROR_NONE\<close>. The last part of
  the statement says that the four operations do return a triple on every table of
  256 slots with counters in range and every non-negative identifier.
\<close>

theorem result_triple_consistent:
  "(\<forall>r s'. ibmoon_socket_connect host port timeout_ms cos s = Inr (r, s')
            \<longrightarrow> triple_consistent r)
   \<and> (\<forall>r s'. ibmoon_socket_send socket_id len ios s = Inr (r, s') \<longrightarrow> triple_consistent r)
   \<and> (\<forall>r s'. ibmoon_socket_receive socket_id buffer_len timeout_ms ios s = Inr (r, s')
            \<longrightarrow> triple_consistent r)
   \<and> (\<forall>r s'. ibmoon_socket_close socket_id s = Inr (r, s') \<longrightarrow> triple_consistent r)
   \<and> get_socket_error e \<noteq> ERROR_NONE
   \<and> (length (sockets s) = 256 \<and> 0 \<le> next_socket_id s \<and> next_socket_id s < INT_MAX
        \<and> INT_MIN < socket_count s \<and> 0 \<le> socket_id \<longrightarrow>
        (\<exists>r s'. ibmoon_socket_connect host port timeout_ms cos s = Inr (r, s'))
      \<and> (\<exists>r s'. ibmoon_socket_send socket_id len ios s = Inr (r, s'))
      \<and> (\<exists>r s'. ibmoon_socket_receive socket_id buffer_len timeout_ms ios s = Inr (r, s'))
      \<and> (\<exists>r s'. ibmoon_socket_close socket_id s = Inr (r, s')))"
proof -
  have mapper: "get_socket_error e \<noteq> ERROR_NONE"
    using get_socket_error_range [of e] by (auto simp add: c_consts)
  have partial:
    "\<forall>r s'. ibmoon_socket_connect host port timeout_ms cos s = Inr (r, s')
            \<longrightarrow> triple_consistent r"
    "\<forall>r s'. ibmoon_socket_send socket_id len ios s = Inr (r, s') \<longrightarrow> triple_consistent r"
    "\<forall>r s'. ibmoon_socket_receive socket_id buffer_len timeout_ms ios s = Inr (r, s')
            \<longrightarrow> triple_consistent r"
    "\<forall>r s'. ibmoon_socket_close socket_id s = Inr (r, s') \<longrightarrow> triple_consistent r"
    by (blast intro: connect_consistent send_consistent receive_consistent close_consistent)+
  show ?thesis
    by (intro conjI impI partial mapper connect_returns send_returns receive_returns
        close_returns) simp_all
qed

text \<open>
  The first connect of a process, then a send that fails with \<open>EPIPE\<close>, a receive of
  four bytes and a close, all on identifier 1.
\<close>

theorem result_triple_consistent_witness:
  "ibmoon_socket_connect ''127.0.0.1'' 9999 500 accepts initial_state =
     Inr (\<lparr>out_success = 1, out_value = 1, out_error = ERROR_NONE\<rparr>, connected_state)
   \<and> triple_consistent \<lparr>out_success = 1, out_value = 1, out_error = ERROR_NONE\<rparr>
   \<and> ibmoon_socket_send 1 4 \<lparr>io_ret = - 1, io_errno = EPIPE\<rparr> connected_state =
     Inr (\<lparr>out_success = 0, out_value = 0, out_error = ERROR_CLOSED\<rparr>,
          os_log (Sys_send 3 4) connected_state)
   \<and> triple_consistent \<lparr>out_success = 0, out_value = 0, out_error = ERROR_CLOSED\<rparr>
   \<and> ibmoon_socket_receive 1 64 0 \<lparr>io_ret = 4, io_errno = Other_errno 0\<rparr> connected_state =
     Inr (\<lparr>out_success = 1, out_value = 4, out_error = ERROR_NONE\<rparr>,
          os_log (Sys_recv 3 64) connected_state)
   \<and> triple_consistent \<lparr>out_success = 1, out_value = 4, out_error = ERROR_NONE\<rparr>
   \<and> ibmoon_socket_close 1 connected_state =
     Inr (\<lparr>out_success = 1, out_value = 0, out_error = ERROR_NONE\<rparr>, closed_state)
   \<and> triple_consistent \<lparr>out_success = 1, out_value = 0, out_error = ERROR_NONE\<rparr>
   \<and> get_socket_error EPIPE \<noteq> ERROR_NONE"
proof -
  have c: "ibmoon_socket_connect ''127.0.0.1'' 9999 500 accepts initial_state =
     Inr (\<lparr>out_success = 1, out_value = 1, out_error = ERROR_NONE\<rparr>, connected_state)"
    by (simp add: model_defs initial_state_def accepts_def connected_state_def
      closed_state_def c_consts)
  have s: "ibmoon_socket_send 1 4 \<lparr>io_ret = - 1, io_errno = EPIPE\<rparr> connected_state =
     Inr (\<lparr>out_success = 0, out_value = 0, out_error = ERROR_CLOSED\<rparr>,
          os_log (Sys_send 3 4) connected_state)"
    by (simp add: model_defs initial_state_def accepts_def connected_state_def
      closed_state_def c_consts)
  have r: "ibmoon_socket_receive 1 64 0 \<lparr>io_ret = 4, io_errno = Other_errno 0\<rparr> connected_state =
     Inr (\<lparr>out_success = 1, out_value = 4, out_error = ERROR_NONE\<rparr>,
          os_log (Sys_recv 3 64) connected_state)"
    by (simp add: model_defs initial_state_def accepts_def connected_state_def
      closed_state_def c_consts)
  have k: "ibmoon_socket_close 1 connected_state =
     Inr (\<lparr>out_success = 1, out_value = 0, out_error = ERROR_NONE\<rparr>, closed_state)"
    by (simp add: model_defs initial_state_def accepts_def connected_state_def
      closed_state_def c_consts)
  note t1 = result_triple_consistent
    [of "''127.0.0.1''" 9999 500 accepts initial_state 1 4
        "\<lparr>io_ret = - 1, io_errno = EPIPE\<rparr>" 64 EPIPE]
  note t2 = result_triple_consistent
    [of "''127.0.0.1''" 9999 0 accepts connected_state 1 4
        "\<lparr>io_ret = - 1, io_errno = EPIPE\<rparr>" 64 EPIPE]
  note t3 = result_triple_consistent
    [of "''127.0.0.1''" 9999 0 accepts connected_state 1 4
        "\<lparr>io_ret = 4, io_errno = Other_errno 0\<rparr>" 64 EPIPE]
  from t1 c have a1: "triple_consistent \<lparr>out_success = 1, out_value = 1, out_error = ERROR_NONE\<rparr>"
    by blast
  from t2 s have a2: "triple_consistent \<lparr>out_success = 0, out_value = 0, out_error = ERROR_CLOSED\<rparr>"
    by blast
  from t3 r have a3: "triple_consistent \<lparr>out_success = 1, out_value = 4, out_error = ERROR_NONE\<rparr>"
    by blast
  from t2 k have a4: "triple_consistent \<lparr>out_success = 1, out_value = 0, out_error = ERROR_NONE\<rparr>"
    by blast
  from t1 have a5: "get_socket_error EPIPE \<noteq> ERROR_NONE"
    by blast
  from c s r k a1 a2 a3 a4 a5 show ?thesis
    by blast
qed

subsection \<open>Overwriting an occupied slot\<close>

lemma filter_length_update:
  "i < length xs \<Longrightarrow> P (xs ! i) \<Longrightarrow> P v \<Longrightarrow>
     length (filter P (xs[i := v])) = length (filter P xs)"
proof (induction xs arbitrary: i)
  case Nil
  then show ?case by simp
next
  case (Cons x xs)
  then show ?case by (cases i) simp_all
qed

lemma only_occurrence_overwritten:
  "count_list xs x = 1 \<Longrightarrow> i < length xs \<Longrightarrow> xs ! i = x \<Longrightarrow> v \<noteq> x \<Longrightarrow>
     x \<notin> set (xs[i := v])"
proof (induction xs arbitrary: i)
  case Nil
  then show ?case by simp
next
  case (Cons y ys)
  show ?case
  proof (cases i)
    case 0
    with Cons.prems have "count_list ys x = 0" by simp
    then have "x \<notin> set ys" by (simp add: count_list_0_iff)
    with 0 Cons.prems show ?thesis by simp
  next
    case (Suc j)
    with Cons.prems have "x \<in> set ys" by auto
    then have "count_list ys x \<noteq> 0" by (simp add: count_list_0_iff)
    with Cons.prems have "y \<noteq> x" and "count_list ys x = 1"
      by (auto split: if_splits)
    with Suc Cons.prems Cons.IH [of j] show ?thesis by simp
  qed
qed

text \<open>
  Claim C10 (implicit): when \<open>store_socket\<close> mints an identifier whose slot holds the
  open descriptor \<open>old\<close> of another live identifier, it writes the new descriptor over
  it, makes no system call (so \<open>old\<close> stays open) and increments \<open>socket_count\<close>.
  If \<open>old\<close> was in that slot only, no slot holds it any more: it is leaked. The number
  of occupied slots is unchanged, so that a \<open>socket_count\<close> that was equal to it is
  not any more.
\<close>

theorem store_socket_overwrites_occupied_slot:
  assumes "length (sockets s) = 256" and "socket_count s < MAX_SOCKETS"
    and "0 \<le> next_socket_id s" and "next_socket_id s < INT_MAX"
    and "sockets s ! nat (next_socket_id s mod 256) = old"
    and "old \<noteq> INVALID_SOCKET" and "old \<in> open_fds s"
    and "sock \<noteq> INVALID_SOCKET"
  shows "\<exists>s'. store_socket sock s = Inr (next_socket_id s, s')
              \<and> sockets s' = (sockets s)[nat (next_socket_id s mod 256) := sock]
              \<and> socket_count s' = socket_count s + 1
              \<and> next_socket_id s' = next_socket_id s + 1
              \<and> os_calls s' = os_calls s
              \<and> open_fds s' = open_fds s
              \<and> old \<in> open_fds s'
              \<and> (count_list (sockets s) old = 1 \<and> sock \<noteq> old \<longrightarrow> old \<notin> set (sockets s'))
              \<and> occupied_slots s' = occupied_slots s
              \<and> (socket_count s = occupied_slots s \<longrightarrow> socket_count s' \<noteq> occupied_slots s')"
proof -
  let ?i = "nat (next_socket_id s mod 256)"
  let ?s' = "s\<lparr>next_socket_id := next_socket_id s + 1,
               sockets := (sockets s)[?i := sock],
               socket_count := socket_count s + 1\<rparr>"
  have i: "?i < length (sockets s)"
    using assms(1) by simp
  have st: "store_socket sock s = Inr (next_socket_id s, ?s')"
    using assms by (simp add: store_socket_slot)
  have occ: "length (filter (\<lambda>d. d \<noteq> INVALID_SOCKET) ((sockets s)[?i := sock])) =
             length (filter (\<lambda>d. d \<noteq> INVALID_SOCKET) (sockets s))"
    using i assms(5,6,8) by (simp add: filter_length_update)
  have leak: "count_list (sockets s) old = 1 \<and> sock \<noteq> old \<longrightarrow> old \<notin> set (sockets ?s')"
    using i assms(5) by (simp add: only_occurrence_overwritten)
  show ?thesis
    using st occ leak assms(7) by (simp add: occupied_slots_def)
qed

text \<open>
  Identifier 1 is live on descriptor 3 and identifier 257 is minted for descriptor 4:
  slot 1 goes from 3 to 4, descriptor 3 stays open and no slot holds it, and
  \<open>socket_count\<close> is 2 with one slot occupied.
\<close>

theorem store_socket_overwrites_occupied_slot_witness:
  "length (sockets wrapped_state) = 256 \<and> socket_count wrapped_state < MAX_SOCKETS
   \<and> 0 \<le> next_socket_id wrapped_state \<and> next_socket_id wrapped_state < INT_MAX
   \<and> sockets wrapped_state ! nat (next_socket_id wrapped_state mod 256) = 3
   \<and> 3 \<noteq> INVALID_SOCKET \<and> 3 \<in> open_fds wrapped_state \<and> 4 \<noteq> INVALID_SOCKET
   \<and> count_list (sockets wrapped_state) 3 = 1
   \<and> socket_count wrapped_state = occupied_slots wrapped_state
   \<and> store_socket 4 wrapped_state =
       Inr (257, \<lparr>sockets = (replicate 256 (- 1))[1 := 4], socket_count = 2,
                  next_socket_id = 258, open_fds = {3}, os_calls = []\<rparr>)
   \<and> (3::int) \<notin> set ((replicate 256 (- 1))[1 := 4])
   \<and> occupied_slots \<lparr>sockets = (replicate 256 (- 1))[1 := 4], socket_count = 2,
                      next_socket_id = 258, open_fds = {3}, os_calls = []\<rparr> = 1"
proof -
  have cnt: "count_list (sockets wrapped_state) 3 = 1"
    by (simp add: wrapped_state_def) code_simp
  have occ: "socket_count wrapped_state = occupied_slots wrapped_state"
    by (simp add: wrapped_state_def occupied_slots_def INVALID_SOCKET_def) code_simp
  show ?thesis
    using cnt occ store_socket_overwrites_occupied_slot [of wrapped_state 3 4]
    by (simp add: wrapped_state_def occupied_slots_def c_consts store_socket_def c_mod_def)
qed

end
